theory Spec2Isabelle
  imports Complex_Main
begin

section \<open>Python and NumPy primitives used by the notebook\<close>

text \<open>
  The functions verified here are the three helpers defined in the notebook
  \<^verbatim>\<open>03.1-modules-vs-distributed-processing.ipynb\<close>: \<^verbatim>\<open>label2TR\<close>,
  \<^verbatim>\<open>normalize\<close> and \<^verbatim>\<open>decode\<close>. Every exception the Python can raise is a
  value \<open>Inl e\<close> of the result type; a normal return is \<open>Inr v\<close>.

  Numbers: the timing array and the repetition time are floating-point values in
  the notebook. Every finite float is a rational number, so onset times, labels
  and the repetition time are of type \<open>rat\<close>, and the quotient \<^verbatim>\<open>time / TR\<close> is the
  exact quotient (the rounding of the float division is not modelled, nor are
  NaN and infinite entries of the input arrays).
\<close>

datatype py_error = ZeroDivisionError | ValueError | OverflowError | IndexError | NotFittedError

text \<open>Python's \<^verbatim>\<open>int(x)\<close> on a float truncates towards zero.\<close>

definition py_int :: "rat \<Rightarrow> int" where
  "py_int q = (if q < 0 then \<lceil>q\<rceil> else \<lfloor>q\<rfloor>)"

text \<open>\<^verbatim>\<open>range(n)\<close>, which is empty for \<open>n \<le> 0\<close>.\<close>

definition py_range :: "int \<Rightarrow> int list" where
  "py_range n = map int [0..<nat n]"

text \<open>
  A \<^verbatim>\<open>for\<close> loop whose body may raise: the state is threaded through the
  iterations in order and the first exception ends the loop.
\<close>

fun for_loop :: "('i \<Rightarrow> 's \<Rightarrow> py_error + 's) \<Rightarrow> 'i list \<Rightarrow> 's \<Rightarrow> py_error + 's" where
  "for_loop body [] s = Inr s"
| "for_loop body (i # is) s =
     (case body i s of Inl e \<Rightarrow> Inl e | Inr s' \<Rightarrow> for_loop body is s')"

text \<open>
  \<^verbatim>\<open>np.zeros((n, 1))\<close>: a column of \<open>n\<close> zeros, held as the list of its entries;
  a negative dimension raises ValueError.
\<close>

definition np_zeros :: "int \<Rightarrow> py_error + rat list" where
  "np_zeros n = (if n < 0 then Inl ValueError else Inr (replicate (nat n) 0))"

text \<open>
  Indexing an array of length \<open>n\<close> with a Python integer: an index in \<open>[-n, 0)\<close>
  counts from the end, an index outside \<open>[-n, n)\<close> raises IndexError.
\<close>

definition norm_index :: "nat \<Rightarrow> int \<Rightarrow> py_error + nat" where
  "norm_index n i =
     (let j = (if i < 0 then i + int n else i)
      in if 0 \<le> j \<and> j < int n then Inr (nat j) else Inl IndexError)"

definition getitem :: "'a list \<Rightarrow> int \<Rightarrow> py_error + 'a" where
  "getitem xs i = (case norm_index (length xs) i of Inl e \<Rightarrow> Inl e | Inr j \<Rightarrow> Inr (xs ! j))"

definition setitem :: "'a list \<Rightarrow> int \<Rightarrow> 'a \<Rightarrow> py_error + 'a list" where
  "setitem xs i v = (case norm_index (length xs) i of Inl e \<Rightarrow> Inl e | Inr j \<Rightarrow> Inr (xs[j := v]))"

section \<open>The timing aligner: \<^verbatim>\<open>label2TR\<close>\<close>

text \<open>
  \<^verbatim>\<open>stim_label\<close> is a two-dimensional array with one column per event. The
  function reads row 0 (the condition label) and row 2 (the onset time) of a
  column, so a column is a record of these two entries and the array is the list
  of its columns.
\<close>

record event =
  cond :: rat
  onset :: rat

text \<open>
  \<^verbatim>\<open>events_run = int(events / num_runs)\<close>: the true division of two Python
  integers raises ZeroDivisionError for a zero divisor.
\<close>

definition events_per_run :: "nat \<Rightarrow> int \<Rightarrow> py_error + int" where
  "events_per_run events num_runs =
     (if num_runs = 0 then Inl ZeroDivisionError
      else Inr (py_int (of_nat events / of_int num_runs)))"

text \<open>
  \<^verbatim>\<open>int(time / TR)\<close>, where \<^verbatim>\<open>time\<close> is a NumPy float: dividing by zero gives
  an infinity (or NaN for \<open>0 / 0\<close>) and \<^verbatim>\<open>int\<close> of it raises OverflowError
  (ValueError for NaN).
\<close>

definition time_to_TR :: "rat \<Rightarrow> rat \<Rightarrow> py_error + int" where
  "time_to_TR time TR =
     (if TR = 0 then (if time = 0 then Inl ValueError else Inl OverflowError)
      else Inr (py_int (time / TR)))"

text \<open>
  The body of the inner loop:
  \<^verbatim>\<open>time_idx = run * (events_run) + i\<close>,
  \<^verbatim>\<open>time = stim_label[2, time_idx]\<close>,
  \<^verbatim>\<open>TR_idx = int(time / TR) + (run * (TRs_run - 1))\<close>,
  \<^verbatim>\<open>stim_label_TR[TR_idx] = stim_label[0, time_idx]\<close>.
\<close>

definition label_event ::
  "event list \<Rightarrow> rat \<Rightarrow> int \<Rightarrow> int \<Rightarrow> int \<Rightarrow> int \<Rightarrow> rat list \<Rightarrow> py_error + rat list" where
  "label_event stim_label TR TRs_run events_run run i stim_label_TR =
     (let time_idx = run * events_run + i in
      case getitem stim_label time_idx of Inl e \<Rightarrow> Inl e
      | Inr ev \<Rightarrow>
          (case time_to_TR (onset ev) TR of Inl e \<Rightarrow> Inl e
           | Inr q \<Rightarrow>
               (let TR_idx = q + run * (TRs_run - 1)
                in setitem stim_label_TR TR_idx (cond ev))))"

text \<open>
  The whole function. The output is allocated as \<^verbatim>\<open>np.zeros((TRs_run * 3, 1))\<close>,
  then the runs and, within each run, the events of the run are visited in order.
\<close>

definition label2TR :: "event list \<Rightarrow> int \<Rightarrow> rat \<Rightarrow> int \<Rightarrow> py_error + rat list" where
  "label2TR stim_label num_runs TR TRs_run =
     (case events_per_run (length stim_label) num_runs of Inl e \<Rightarrow> Inl e
      | Inr events_run \<Rightarrow>
          (case np_zeros (TRs_run * 3) of Inl e \<Rightarrow> Inl e
           | Inr zeros \<Rightarrow>
               for_loop
                 (\<lambda>run. for_loop (label_event stim_label TR TRs_run events_run run)
                           (py_range events_run))
                 (py_range num_runs) zeros))"

text \<open>
  Three notions in which the properties of \<^verbatim>\<open>label2TR\<close> are stated. The loops
  visit the columns \<open>time_idx = run * events_run + i\<close> in increasing order, so the
  events read are the first \<open>num_runs * events_run\<close> columns, in input order, and
  the column at position \<open>p\<close> belongs to run \<open>p div events_run\<close>.
  \<open>events_read\<close> is the number of columns read, \<open>TR_idx_of\<close> the value of \<^verbatim>\<open>TR_idx\<close>
  the code computes for column \<open>p\<close>, and \<open>write_event\<close> what one iteration does
  with column \<open>p\<close>; \<open>label2TR_flat\<close> below proves that the nested loops are the
  sequence of these steps.
\<close>

definition events_read :: "event list \<Rightarrow> int \<Rightarrow> nat" where
  "events_read stim_label num_runs =
     (if num_runs \<le> 0 then 0 else nat num_runs * (length stim_label div nat num_runs))"

definition TR_idx_of :: "event list \<Rightarrow> int \<Rightarrow> rat \<Rightarrow> int \<Rightarrow> nat \<Rightarrow> int" where
  "TR_idx_of stim_label num_runs TR TRs_run p =
     py_int (onset (stim_label ! p) / TR)
       + (int p div (int (length stim_label) div num_runs)) * (TRs_run - 1)"

definition write_event ::
  "event list \<Rightarrow> int \<Rightarrow> rat \<Rightarrow> int \<Rightarrow> nat \<Rightarrow> rat list \<Rightarrow> py_error + rat list" where
  "write_event stim_label num_runs TR TRs_run p stim_label_TR =
     (if TR = 0 then (if onset (stim_label ! p) = 0 then Inl ValueError else Inl OverflowError)
      else setitem stim_label_TR (TR_idx_of stim_label num_runs TR TRs_run p) (cond (stim_label ! p)))"



section \<open>The time shift: \<^verbatim>\<open>shift_timing\<close>\<close>

text \<open>
  Modelled from the spec: \<^verbatim>\<open>shift_timing\<close> is imported by the notebook from the
  repository's \<^verbatim>\<open>utils\<close> module, which is not among the sources. The
  specification describes it as producing a new vector of the same length in
  which the labels are moved later by \<open>shift\<close> slots, the first \<open>shift\<close> slots are
  0, there is no wraparound and the entries shifted past the end are dropped.
  The model pads the vector with \<open>shift\<close> zeros at the front and cuts the result
  to the length of the input.
\<close>

definition shift_timing :: "rat list \<Rightarrow> nat \<Rightarrow> rat list" where
  "shift_timing label_TR TR_shift_size =
     take (length label_TR) (replicate TR_shift_size 0 @ label_TR)"

section \<open>Run-wise normalisation: \<^verbatim>\<open>normalize\<close>\<close>

text \<open>
  A feature matrix is the list of its rows; voxel values are real numbers (the
  z-score needs a square root). \<^verbatim>\<open>StandardScaler\<close> is the scikit-learn class; what
  is modelled is its documented behaviour: on a two-dimensional array
  (\<open>fit_transform_2d\<close>) \<^verbatim>\<open>fit_transform\<close> computes, for every
  column, the mean and the population standard deviation of the rows it is
  given, replaces a zero standard deviation by 1, and returns the rows with the
  mean subtracted and divided by that scale. It refuses an array without rows or
  without columns with a ValueError. Each call fits anew, so the one \<^verbatim>\<open>scaler\<close>
  object of \<^verbatim>\<open>normalize\<close> carries nothing from one run to the next.
\<close>

type_synonym matrix = "real list list"

definition mean :: "real list \<Rightarrow> real" where
  "mean xs = sum_list xs / real (length xs)"

definition std :: "real list \<Rightarrow> real" where
  "std xs = sqrt (mean (map (\<lambda>x. (x - mean xs)\<^sup>2) xs))"

definition handle_zeros_in_scale :: "real \<Rightarrow> real" where
  "handle_zeros_in_scale s = (if s = 0 then 1 else s)"

definition transform_row :: "real list \<Rightarrow> real list \<Rightarrow> real list \<Rightarrow> real list" where
  "transform_row means scales row = map (\<lambda>(x, m, s). (x - m) / s) (zip row (zip means scales))"

definition fit_transform_2d :: "matrix \<Rightarrow> py_error + matrix" where
  "fit_transform_2d X =
     (case X of [] \<Rightarrow> Inl ValueError
      | row # _ \<Rightarrow>
          if row = [] then Inl ValueError
          else (let means = map mean (transpose X);
                    scales = map (\<lambda>col. handle_zeros_in_scale (std col)) (transpose X)
                in Inr (map (transform_row means scales) X)))"

text \<open>
  The docstring of \<^verbatim>\<open>normalize\<close> allows \<^verbatim>\<open>run_ids\<close> to be a NumPy array or a
  list. The comparison \<^verbatim>\<open>run_ids == r\<close> is elementwise for an array and gives a
  boolean mask; for a list it is Python's comparison of a list with a number,
  the single value \<open>False\<close>.
\<close>

datatype run_id_vector = NdArray "int list" | PyList "int list"

datatype selector = Mask "bool list" | Scalar bool

fun equals_run :: "run_id_vector \<Rightarrow> int \<Rightarrow> selector" where
  "equals_run (NdArray ids) r = Mask (map (\<lambda>run_id. run_id = r) ids)"
| "equals_run (PyList ids) r = Scalar False"

text \<open>
  \<^verbatim>\<open>bold_data_[run_ids == r, :]\<close>. With a boolean mask, which must be as long as
  the matrix has rows, the result is the two-dimensional array of the selected
  rows. With a single boolean the result is three-dimensional: a stack that
  holds the whole matrix once for \<open>True\<close> and is empty for \<open>False\<close>.
\<close>

datatype selection = Array2 matrix | Array3 "matrix list"

definition mask_rows :: "'a list \<Rightarrow> bool list \<Rightarrow> py_error + 'a list" where
  "mask_rows rows selected =
     (if length selected \<noteq> length rows then Inl IndexError
      else Inr (map fst (filter snd (zip rows selected))))"

fun select_rows :: "matrix \<Rightarrow> selector \<Rightarrow> py_error + selection" where
  "select_rows bold_data (Mask selected) =
     (case mask_rows bold_data selected of Inl e \<Rightarrow> Inl e | Inr rows \<Rightarrow> Inr (Array2 rows))"
| "select_rows bold_data (Scalar b) = Inr (Array3 (if b then [bold_data] else []))"

text \<open>
  \<^verbatim>\<open>scaler.fit_transform\<close> refuses an array of more than two dimensions with a
  ValueError.
\<close>

fun fit_transform :: "selection \<Rightarrow> py_error + matrix" where
  "fit_transform (Array2 X) = fit_transform_2d X"
| "fit_transform (Array3 Xs) = Inl ValueError"

text \<open>\<^verbatim>\<open>np.vstack\<close> needs at least one array, and arrays of the same width.\<close>

definition width :: "matrix \<Rightarrow> nat" where
  "width X = (case X of [] \<Rightarrow> 0 | row # _ \<Rightarrow> length row)"

definition np_vstack :: "matrix list \<Rightarrow> py_error + matrix" where
  "np_vstack data =
     (case data of [] \<Rightarrow> Inl ValueError
      | a # _ \<Rightarrow> if list_ex (\<lambda>b. width b \<noteq> width a) data then Inl ValueError
                 else Inr (concat data))"

text \<open>
  One iteration of the loop over the runs:
  \<^verbatim>\<open>data.append(scaler.fit_transform(bold_data_[run_ids == r, :]))\<close>.
\<close>

definition normalize_run ::
  "matrix \<Rightarrow> run_id_vector \<Rightarrow> int \<Rightarrow> matrix list \<Rightarrow> py_error + matrix list" where
  "normalize_run bold_data run_ids r data =
     (case select_rows bold_data (equals_run run_ids r) of Inl e \<Rightarrow> Inl e
      | Inr selected \<Rightarrow>
          (case fit_transform selected of Inl e \<Rightarrow> Inl e
           | Inr z \<Rightarrow> Inr (data @ [z])))"

text \<open>
  \<^verbatim>\<open>normalize\<close> loops over \<^verbatim>\<open>range(vdc_n_runs)\<close>. The constant \<^verbatim>\<open>vdc_n_runs\<close> comes
  from the \<^verbatim>\<open>utils\<close> module (the notebook prints 3 for it); here it is the first
  argument. The parameter \<^verbatim>\<open>bold_data_\<close> is written \<open>bold_data\<close>, and the function
  \<open>normalize_py\<close>, since \<open>normalize\<close> is a constant of the library.
\<close>

definition normalize_py :: "int \<Rightarrow> matrix \<Rightarrow> run_id_vector \<Rightarrow> py_error + matrix" where
  "normalize_py vdc_n_runs bold_data run_ids =
     (case for_loop (normalize_run bold_data run_ids) (py_range vdc_n_runs) [] of
        Inl e \<Rightarrow> Inl e
      | Inr data \<Rightarrow> np_vstack data)"

text \<open>
  What the specification asks of row \<open>j\<close>: the input row \<open>j\<close>, z-scored with the
  column means and standard deviations of the rows that share its run identifier.
  \<open>rows_of_run\<close> are the rows of run \<open>r\<close>, \<open>run_transform\<close> is the transform fitted
  on them.
\<close>

definition rows_of_run :: "matrix \<Rightarrow> int list \<Rightarrow> int \<Rightarrow> matrix" where
  "rows_of_run X run_ids r = map fst (filter (\<lambda>(row, run_id). run_id = r) (zip X run_ids))"

definition run_transform :: "matrix \<Rightarrow> int list \<Rightarrow> int \<Rightarrow> real list \<Rightarrow> real list" where
  "run_transform X run_ids r =
     transform_row (map mean (transpose (rows_of_run X run_ids r)))
       (map (\<lambda>col. handle_zeros_in_scale (std col)) (transpose (rows_of_run X run_ids r)))"

definition zscore_in_run :: "matrix \<Rightarrow> int list \<Rightarrow> nat \<Rightarrow> real list" where
  "zscore_in_run X run_ids j = run_transform X run_ids (run_ids ! j) (X ! j)"

section \<open>Leave-one-run-out decoding: \<^verbatim>\<open>decode\<close>\<close>

text \<open>
  \<^verbatim>\<open>PredefinedSplit\<close> is the scikit-learn splitter. Its folds are the distinct
  values of \<^verbatim>\<open>test_fold\<close> in ascending order (\<^verbatim>\<open>np.unique\<close>), without the value
  \<open>-1\<close>, which marks a row that is in no test set. For each fold \<^verbatim>\<open>split()\<close>
  yields the indices of the rows outside the fold (the training set) and of the
  rows in the fold (the test set), both ascending.
\<close>

definition unique_folds :: "int list \<Rightarrow> int list" where
  "unique_folds test_fold = filter (\<lambda>f. f \<noteq> - 1) (sort (remdups test_fold))"

definition predefined_split :: "int list \<Rightarrow> (nat list \<times> nat list) list" where
  "predefined_split test_fold =
     map (\<lambda>f. (filter (\<lambda>i. test_fold ! i \<noteq> f) [0..<length test_fold],
               filter (\<lambda>i. test_fold ! i = f) [0..<length test_fold]))
         (unique_folds test_fold)"

text \<open>\<^verbatim>\<open>X[index]\<close> with an array of row numbers; a row number past the end raises.\<close>

definition take_rows :: "'a list \<Rightarrow> nat list \<Rightarrow> py_error + 'a list" where
  "take_rows xs index =
     (if list_all (\<lambda>i. i < length xs) index then Inr (map (\<lambda>i. xs ! i) index)
      else Inl IndexError)"

text \<open>
  The classifier is an object: \<^verbatim>\<open>model\<close> is a reference, and the heap maps a
  reference to the fitted state of the object it names (\<open>None\<close> before the first
  \<^verbatim>\<open>fit\<close>). The classifier's methods are parameters: \<open>fit\<close> computes the fitted
  state from a training set (scikit-learn estimators refit from scratch on every
  call) and \<open>score\<close> computes the accuracy of a fitted state on a test set. The
  lists \<^verbatim>\<open>models\<close> and \<^verbatim>\<open>scores\<close> and the heap are the state of the loop.
\<close>

type_synonym ref = nat

type_synonym 'm heap = "ref \<Rightarrow> 'm option"

definition decode_fold ::
  "('x list \<Rightarrow> 'y list \<Rightarrow> py_error + 'm) \<Rightarrow> ('m \<Rightarrow> 'x list \<Rightarrow> 'y list \<Rightarrow> py_error + rat) \<Rightarrow>
   'x list \<Rightarrow> 'y list \<Rightarrow> ref \<Rightarrow> nat list \<times> nat list \<Rightarrow>
   ref list \<times> rat list \<times> 'm heap \<Rightarrow> py_error + ref list \<times> rat list \<times> 'm heap" where
  "decode_fold fit score X y model split st =
     (case split of (train_index, test_index) \<Rightarrow>
     (case st of (models, scores, heap) \<Rightarrow>
     (case take_rows X train_index of Inl e \<Rightarrow> Inl e | Inr X_train \<Rightarrow>
     (case take_rows X test_index of Inl e \<Rightarrow> Inl e | Inr X_test \<Rightarrow>
     (case take_rows y train_index of Inl e \<Rightarrow> Inl e | Inr y_train \<Rightarrow>
     (case take_rows y test_index of Inl e \<Rightarrow> Inl e | Inr y_test \<Rightarrow>
     (case fit X_train y_train of Inl e \<Rightarrow> Inl e | Inr fitted \<Rightarrow>
     (let heap' = heap(model \<mapsto> fitted) in
     (case heap' model of None \<Rightarrow> Inl NotFittedError | Some m \<Rightarrow>
     (case score m X_test y_test of Inl e \<Rightarrow> Inl e | Inr s \<Rightarrow>
        Inr (models @ [model], scores @ [s], heap')))))))))))"

definition decode ::
  "('x list \<Rightarrow> 'y list \<Rightarrow> py_error + 'm) \<Rightarrow> ('m \<Rightarrow> 'x list \<Rightarrow> 'y list \<Rightarrow> py_error + rat) \<Rightarrow>
   'x list \<Rightarrow> 'y list \<Rightarrow> int list \<Rightarrow> ref \<Rightarrow> 'm heap \<Rightarrow>
   py_error + ref list \<times> rat list \<times> 'm heap" where
  "decode fit score X y cv_ids model heap =
     for_loop (decode_fold fit score X y model) (predefined_split cv_ids) ([], [], heap)"

section \<open>Loops\<close>

lemma for_loop_append:
  "for_loop body (xs @ ys) s =
     (case for_loop body xs s of Inl e \<Rightarrow> Inl e | Inr s' \<Rightarrow> for_loop body ys s')"
  by (induction xs arbitrary: s) (auto split: sum.splits)

lemma for_loop_cong:
  "(\<And>x s. x \<in> set xs \<Longrightarrow> body x s = body' x s) \<Longrightarrow> for_loop body xs s = for_loop body' xs s"
  by (induction xs arbitrary: s) (auto split: sum.splits)

lemma for_loop_map_state: "for_loop body (map f xs) s = for_loop (\<lambda>x. body (f x)) xs s"
  by (induction xs arbitrary: s) (auto split: sum.splits)

lemma for_loop_map: "for_loop body (map f xs) = for_loop (\<lambda>x. body (f x)) xs"
  by (rule ext) (rule for_loop_map_state)

lemma for_loop_nested:
  "for_loop (\<lambda>r. for_loop (f r) (g r)) rs s =
     for_loop (\<lambda>(r, i). f r i) (concat (map (\<lambda>r. map (Pair r) (g r)) rs)) s"
  by (induction rs arbitrary: s) (auto simp: for_loop_append for_loop_map split: sum.splits)

lemma upt_block: "[0..<n * e + e] = [0..<n * e] @ map (\<lambda>i. n * e + i) [0..<e]"
proof -
  have "[0..<n * e + e] = [0..<n * e] @ [n * e..<n * e + e]"
    using upt_add_eq_append [of 0 "n * e" e] by simp
  moreover have "map (\<lambda>i. i + n * e) [0..<e] = [n * e..<e + n * e]"
    by (rule map_add_upt)
  then have "[n * e..<n * e + e] = map (\<lambda>i. n * e + i) [0..<e]"
    by (simp only: add.commute)
  ultimately show ?thesis by simp
qed

lemma pairs_flat:
  "map (\<lambda>(r, i). h r (r * e + i)) (concat (map (\<lambda>r. map (Pair r) [0..<e]) [0..<n]))
     = map (\<lambda>p. h (p div e) p) [0..<n * e]"
proof (induction n)
  case 0
  show ?case by simp
next
  case (Suc n)
  have a: "map (\<lambda>i. h n (n * e + i)) [0..<e] = map (\<lambda>i. h ((n * e + i) div e) (n * e + i)) [0..<e]"
    by (rule map_cong) auto
  have b: "Suc n * e = n * e + e" by simp
  show ?case
    unfolding b upt_block using Suc a by (simp add: comp_def)
qed


lemma events_per_run_pos:
  "0 < num_runs \<Longrightarrow> events_per_run n num_runs = Inr (int (n div nat num_runs))"
proof -
  assume pos: "0 < num_runs"
  have "(of_nat n / of_int num_runs :: rat) = of_int (int n) / of_int num_runs" by simp
  then have "\<lfloor>(of_nat n / of_int num_runs :: rat)\<rfloor> = int n div num_runs"
    by (simp only: floor_divide_of_int_eq)
  moreover have "\<not> (of_nat n / of_int num_runs :: rat) < 0"
    using pos by (simp add: not_less)
  moreover have "int n div num_runs = int (n div nat num_runs)"
    using pos by (simp add: zdiv_int)
  ultimately show ?thesis
    using pos by (simp add: events_per_run_def py_int_def)
qed

lemma getitem_nat: "p < length xs \<Longrightarrow> getitem xs (int p) = Inr (xs ! p)"
  by (simp add: getitem_def norm_index_def)

lemma label_event_in_range:
  assumes "r * e + i < length evs"
  shows "label_event evs TR N (int e) (int r) (int i) out =
     (case time_to_TR (onset (evs ! (r * e + i))) TR of Inl er \<Rightarrow> Inl er
      | Inr q \<Rightarrow> setitem out (q + int r * (N - 1)) (cond (evs ! (r * e + i))))"
proof -
  have eq: "int r * int e + int i = int (r * e + i)" by simp
  show ?thesis
    unfolding label_event_def Let_def eq getitem_nat [OF assms] by simp
qed

lemma visit_in_range:
  fixes r n i len :: nat
  assumes "r < n" "i < len div n"
  shows "r * (len div n) + i < n * (len div n)"
proof -
  have "Suc r \<le> n" using assms by simp
  then have "Suc r * (len div n) \<le> n * (len div n)" by (rule mult_le_mono1)
  moreover have "r * (len div n) + i < Suc r * (len div n)" using assms by simp
  ultimately show ?thesis by simp
qed

lemma label2TR_flat:
  assumes pos: "0 < num_runs"
  shows "label2TR evs num_runs TR TRs_run =
    (case np_zeros (TRs_run * 3) of Inl e \<Rightarrow> Inl e
     | Inr zeros \<Rightarrow> for_loop (write_event evs num_runs TR TRs_run) [0..<events_read evs num_runs] zeros)"
proof (cases "np_zeros (TRs_run * 3)")
  case (Inl e)
  then show ?thesis using pos by (simp add: label2TR_def events_per_run_pos)
next
  case (Inr z)
  define n where "n = nat num_runs"
  define e where "e = length evs div n"
  define h where "h = (\<lambda>r p out. case time_to_TR (onset (evs ! p)) TR of Inl er \<Rightarrow> Inl er
      | Inr q \<Rightarrow> setitem out (q + int r * (TRs_run - 1)) (cond (evs ! p)))"
  have nr: "num_runs = int n" using pos by (simp add: n_def)
  have le: "n * e \<le> length evs" by (simp add: e_def)
  have "label2TR evs num_runs TR TRs_run =
      for_loop (\<lambda>run. for_loop (label_event evs TR TRs_run (int e) run) (map int [0..<e]))
        (map int [0..<n]) z"
    using pos Inr by (simp add: label2TR_def events_per_run_pos py_range_def n_def e_def)
  also have "\<dots> = for_loop (\<lambda>r. for_loop (\<lambda>i. label_event evs TR TRs_run (int e) (int r) (int i)) [0..<e])
        [0..<n] z"
    by (simp add: for_loop_map)
  also have "\<dots> = for_loop (\<lambda>(r, i). label_event evs TR TRs_run (int e) (int r) (int i))
        (concat (map (\<lambda>r. map (Pair r) [0..<e]) [0..<n])) z"
    by (rule for_loop_nested)
  also have "\<dots> = for_loop (\<lambda>(r, i). h r (r * e + i))
        (concat (map (\<lambda>r. map (Pair r) [0..<e]) [0..<n])) z"
  proof (rule for_loop_cong)
    fix x s assume "x \<in> set (concat (map (\<lambda>r. map (Pair r) [0..<e]) [0..<n]))"
    then obtain r i where x: "x = (r, i)" and r: "r < n" and i: "i < e" by auto
    have "r * e + i < n * e" using r i visit_in_range [of r n i "length evs"] by (simp add: e_def)
    then have "r * e + i < length evs" using le by simp
    then show "(case x of (r, i) \<Rightarrow> label_event evs TR TRs_run (int e) (int r) (int i)) s =
        (case x of (r, i) \<Rightarrow> h r (r * e + i)) s"
      by (simp add: x label_event_in_range h_def)
  qed
  also have "\<dots> = for_loop (\<lambda>w. w) (map (\<lambda>(r, i). h r (r * e + i))
        (concat (map (\<lambda>r. map (Pair r) [0..<e]) [0..<n]))) z"
    by (simp add: for_loop_map)
  also have "\<dots> = for_loop (\<lambda>w. w) (map (\<lambda>p. h (p div e) p) [0..<n * e]) z"
    by (simp only: pairs_flat)
  also have "\<dots> = for_loop (\<lambda>p. h (p div e) p) [0..<n * e] z"
    by (simp add: for_loop_map)
  also have "\<dots> = for_loop (write_event evs num_runs TR TRs_run) [0..<n * e] z"
  proof (rule for_loop_cong)
    fix p s
    have "int (length evs) div num_runs = int e"
      by (simp add: nr e_def zdiv_int)
    then show "h (p div e) p s = write_event evs num_runs TR TRs_run p s"
      by (simp add: h_def write_event_def TR_idx_of_def time_to_TR_def zdiv_int)
  qed
  finally show ?thesis
    using pos Inr by (simp add: events_read_def n_def e_def)
qed

section \<open>Array writes\<close>
















section \<open>Properties of \<^verbatim>\<open>label2TR\<close>\<close>

text \<open>
  Claim C2 (length of the TR label vector). The claim says that the returned
  vector has length \<open>num_runs * TRs_per_run\<close> for every input. The code allocates
  \<open>TRs_run * 3\<close> entries whatever \<open>num_runs\<close> is: with no events, two runs and four
  TRs per run it returns twelve zeros, not eight.
\<close>

theorem label2TR_length_hardcoded_3:
  "label2TR [] 2 (3/2) 4 = Inr (replicate 12 0) \<and> length (replicate 12 (0::rat)) \<noteq> 2 * 4"
  by code_simp

text \<open>
  Claim C1 (index of an event). The claim places an event of run \<open>r\<close> at
  \<open>r * TRs_per_run + floor(t / TR)\<close>: onset 0 at \<open>r * N\<close> and onset \<open>(N - 1) * T\<close>
  at \<open>r * N + (N - 1)\<close>. The code adds \<open>run * (TRs_run - 1)\<close> instead. With three
  runs, \<open>N = 4\<close> and \<open>T = 3/2\<close>, the events at onset 0 of runs 0, 1, 2 are written
  at 0, 3, 6 (the claim: 0, 4, 8), and the events at onset \<open>9/2 = (N - 1) * T\<close> at
  3, 6, 9 (the claim: 3, 7, 11). The first entry of run 1 lands on the last entry
  of run 0.
\<close>

theorem label2TR_run_offset:
  "label2TR [\<lparr>cond = 1, onset = 0\<rparr>, \<lparr>cond = 2, onset = 0\<rparr>, \<lparr>cond = 3, onset = 0\<rparr>] 3 (3/2) 4
     = Inr [1, 0, 0, 2, 0, 0, 3, 0, 0, 0, 0, 0]
   \<and> label2TR [\<lparr>cond = 1, onset = 9/2\<rparr>, \<lparr>cond = 2, onset = 9/2\<rparr>, \<lparr>cond = 3, onset = 9/2\<rparr>] 3 (3/2) 4
     = Inr [0, 0, 0, 1, 0, 0, 2, 0, 0, 3, 0, 0]"
  by code_simp


lemma np_zeros_cases:
  "np_zeros (TRs_run * 3) = (if TRs_run < 0 then Inl ValueError else Inr (replicate (nat (TRs_run * 3)) 0))"
  by (simp add: np_zeros_def)









text \<open>
  Claim C9 (trailing events are not read). Two inputs with the same number of
  events that agree on the first \<open>num_runs * floor(events / num_runs)\<close> events
  give the same result, whatever the remaining events are. This holds for every
  event count, in particular for one that is not a multiple of \<open>num_runs\<close>.
\<close>

theorem label2TR_ignores_trailing_events:
  assumes len: "length evs' = length evs"
    and pre: "take (nat (num_runs * (int (length evs) div num_runs))) evs' =
              take (nat (num_runs * (int (length evs) div num_runs))) evs"
  shows "label2TR evs' num_runs TR TRs_run = label2TR evs num_runs TR TRs_run"
proof -
  consider (zero) "num_runs = 0" | (neg) "num_runs < 0" | (pos) "0 < num_runs" by linarith
  then show ?thesis
  proof cases
    case zero
    then show ?thesis by (simp add: label2TR_def events_per_run_def)
  next
    case neg
    then have "py_range num_runs = []" by (simp add: py_range_def)
    then show ?thesis by (simp add: label2TR_def len split: sum.splits)
  next
    case pos
    have "nat (int (length evs) div num_runs) = length evs div nat num_runs"
      using pos by (simp add: nat_div_distrib)
    then have m: "nat (num_runs * (int (length evs) div num_runs)) = events_read evs num_runs"
      using pos by (simp add: events_read_def nat_mult_distrib)
    have m': "events_read evs' num_runs = events_read evs num_runs"
      by (simp add: events_read_def len)
    have same: "evs' ! p = evs ! p" if "p < events_read evs num_runs" for p
      using that pre nth_take [of p "events_read evs num_runs" evs]
        nth_take [of p "events_read evs num_runs" evs'] by (simp add: m)
    have "for_loop (write_event evs' num_runs TR TRs_run) [0..<events_read evs num_runs] z =
          for_loop (write_event evs num_runs TR TRs_run) [0..<events_read evs num_runs] z" for z
    proof (rule for_loop_cong)
      fix p s assume "p \<in> set [0..<events_read evs num_runs]"
      then have "evs' ! p = evs ! p" using same by simp
      then show "write_event evs' num_runs TR TRs_run p s = write_event evs num_runs TR TRs_run p s"
        by (simp add: write_event_def TR_idx_of_def len)
    qed
    then show ?thesis by (simp add: label2TR_flat [OF pos] m' split: sum.splits)
  qed
qed

text \<open>
  Instance: three events and two runs; one event per run is read and the third
  event does not matter.
\<close>

theorem label2TR_ignores_trailing_events_witness:
  "length [\<lparr>cond = 1, onset = 0\<rparr>, \<lparr>cond = 2, onset = 0\<rparr>, \<lparr>cond = 3, onset = 3\<rparr>]
     = length [\<lparr>cond = 1, onset = 0\<rparr>, \<lparr>cond = 2, onset = 0\<rparr>, \<lparr>cond = 1, onset = 9/2\<rparr>]
   \<and> \<not> (2::int) dvd 3
   \<and> nat (2 * (3 div 2)) = 2
   \<and> label2TR [\<lparr>cond = 1, onset = 0\<rparr>, \<lparr>cond = 2, onset = 0\<rparr>, \<lparr>cond = 3, onset = 3\<rparr>] 2 (3/2) 4
     = label2TR [\<lparr>cond = 1, onset = 0\<rparr>, \<lparr>cond = 2, onset = 0\<rparr>, \<lparr>cond = 1, onset = 9/2\<rparr>] 2 (3/2) 4"
  using label2TR_ignores_trailing_events
    [of "[\<lparr>cond = 1, onset = 0\<rparr>, \<lparr>cond = 2, onset = 0\<rparr>, \<lparr>cond = 3, onset = 3\<rparr>]"
        "[\<lparr>cond = 1, onset = 0\<rparr>, \<lparr>cond = 2, onset = 0\<rparr>, \<lparr>cond = 1, onset = 9/2\<rparr>]" 2 "3/2" 4]
  by simp

text \<open>
  Claim C10 (no bounds check on the index). For a single event in a single run
  with a negative onset whose index \<open>int(onset / TR)\<close> is negative but not below
  \<open>-3 * TRs_run\<close>, no error is raised: the label is written at the position
  counted from the end of the vector, \<open>3 * TRs_run + int(onset / TR)\<close>.
\<close>

theorem label2TR_negative_index_wraps:
  assumes "onset ev < 0" and "0 < TR"
    and "py_int (onset ev / TR) < 0"
    and "- (3 * TRs_run) \<le> py_int (onset ev / TR)"
  shows "label2TR [ev] 1 TR TRs_run =
     Inr ((replicate (nat (3 * TRs_run)) 0)[nat (3 * TRs_run + py_int (onset ev / TR)) := cond ev])"
proof -
  have n: "0 \<le> TRs_run" using assms(3,4) by simp
  have idx: "TR_idx_of [ev] 1 TR TRs_run 0 = py_int (onset ev / TR)"
    by (simp add: TR_idx_of_def)
  show ?thesis
    using assms n
    by (simp add: label2TR_flat np_zeros_cases events_read_def write_event_def idx
        setitem_def norm_index_def Let_def mult.commute add.commute)
qed

text \<open>
  Instance: onset \<open>-3\<close> with \<open>TR = 3/2\<close> gives index \<open>-2\<close>, and the label is
  found at position 10 of 12.
\<close>

theorem label2TR_negative_index_wraps_witness:
  "onset \<lparr>cond = 5, onset = - 3\<rparr> < 0 \<and> (0::rat) < 3/2
   \<and> py_int (onset \<lparr>cond = 5, onset = - 3\<rparr> / (3/2)) = - 2
   \<and> label2TR [\<lparr>cond = 5, onset = - 3\<rparr>] 1 (3/2) 4 = Inr [0, 0, 0, 0, 0, 0, 0, 0, 0, 0, 5, 0]"
proof -
  have i: "py_int (onset \<lparr>cond = 5, onset = - 3\<rparr> / (3/2)) = - 2" by code_simp
  have i': "py_int (- 2) = - 2" by (simp add: py_int_def)
  have "label2TR [\<lparr>cond = 5, onset = - 3\<rparr>] 1 (3/2) 4 =
     Inr ((replicate (nat (3 * 4)) 0)[nat (3 * 4 + py_int (onset \<lparr>cond = 5, onset = - 3\<rparr> / (3/2))) := cond \<lparr>cond = 5, onset = - 3\<rparr>])"
    by (rule label2TR_negative_index_wraps) (simp_all add: i')
  then show ?thesis unfolding i by (simp add: numeral_eq_Suc)
qed

section \<open>Properties of \<^verbatim>\<open>shift_timing\<close>\<close>

text \<open>
  Claim C8 (time shift). For every vector \<open>v\<close> and shift \<open>k \<ge> 0\<close> the shifted
  vector has the length of \<open>v\<close>; its entry \<open>i\<close> is \<open>v[i - k]\<close> for \<open>i \<ge> k\<close> and 0 for
  \<open>i < k\<close>, so nothing wraps around and the last \<open>k\<close> entries of \<open>v\<close> are dropped;
  shifting by 0 returns \<open>v\<close>.
\<close>

theorem shift_timing_spec:
  "length (shift_timing v k) = length v
   \<and> (\<forall>i. i < length v \<longrightarrow> shift_timing v k ! i = (if i < k then 0 else v ! (i - k)))
   \<and> shift_timing v 0 = v"
  by (auto simp: shift_timing_def nth_append)

text \<open>The scenario of the specification: \<open>[1,2,3,4,5,6]\<close> shifted by 2.\<close>

theorem shift_timing_spec_witness:
  "shift_timing [1, 2, 3, 4, 5, 6] 2 = [0, 0, 1, 2, 3, 4]
   \<and> length (shift_timing [1, 2, 3, 4, 5, 6] 2) = 6
   \<and> shift_timing [1, 2, 3, 4, 5, 6] 2 ! 1 = 0
   \<and> shift_timing [1, 2, 3, 4, 5, 6] 2 ! 5 = [1, 2, 3, 4, 5, 6] ! 3
   \<and> shift_timing [1, 2, 3, 4, 5, 6] 0 = [1, 2, 3, 4, 5, 6]"
  using shift_timing_spec [of "[1, 2, 3, 4, 5, 6]" 2] shift_timing_spec [of "[1, 2, 3, 4, 5, 6]" 0]
  by (simp add: shift_timing_def)


section \<open>Properties of \<^verbatim>\<open>decode\<close>\<close>

lemma distinct_unique_folds: "distinct (unique_folds cv_ids)"
  by (simp add: unique_folds_def)

lemma sorted_unique_folds: "sorted (unique_folds cv_ids)"
  by (simp add: unique_folds_def sorted_filter [where f = "\<lambda>x. x", simplified])

lemma set_unique_folds: "set (unique_folds cv_ids) = set cv_ids - {- 1}"
  by (auto simp: unique_folds_def)

lemma count_fold:
  "distinct fs \<Longrightarrow> length (filter (\<lambda>f. a = f) fs) = (if a \<in> set fs then 1 else 0)"
  by (induction fs) auto

text \<open>
  Claim C6 (the folds partition the rows), as stated, does not hold for every
  call: a row whose fold key is \<open>-1\<close> is in no test set. With \<open>cv_ids = [0, -1]\<close>
  there is one fold, which tests row 0 and trains on row 1.
\<close>

theorem predefined_split_no_test_for_minus_one:
  "predefined_split [0, - 1] = [([1], [0])]
   \<and> (\<Union>(train_index, test_index) \<in> set (predefined_split [0, - 1]). set test_index)
       \<noteq> {0..<length [0, - 1 :: int]}"
proof -
  have a: "predefined_split [0, - 1] = [([1], [0])]" by code_simp
  have "(1::nat) \<in> {0..<length [0, - 1 :: int]}" by simp
  moreover have "(1::nat) \<notin> (\<Union>(train_index, test_index) \<in> set (predefined_split [0, - 1]). set test_index)"
    unfolding a by simp
  ultimately show ?thesis using a by metis
qed

text \<open>
  Claim C6, amended. In every fold the training rows and the test rows are
  disjoint and together are all the rows; every row whose fold key is not \<open>-1\<close>
  is in the test set of exactly one fold, and a row whose key is \<open>-1\<close> in none; so
  the union of the test sets is the set of rows whose key is not \<open>-1\<close>.
\<close>

theorem predefined_split_partition:
  "(\<forall>(train_index, test_index) \<in> set (predefined_split cv_ids).
       set train_index \<inter> set test_index = {}
     \<and> set train_index \<union> set test_index = {0..<length cv_ids})
   \<and> (\<forall>i. i < length cv_ids \<longrightarrow>
         length (filter (\<lambda>(train_index, test_index). i \<in> set test_index) (predefined_split cv_ids))
           = (if cv_ids ! i = - 1 then 0 else 1))
   \<and> (\<Union>(train_index, test_index) \<in> set (predefined_split cv_ids). set test_index)
        = {i. i < length cv_ids \<and> cv_ids ! i \<noteq> - 1}"
proof (intro conjI allI impI)
  show "\<forall>(train_index, test_index) \<in> set (predefined_split cv_ids).
       set train_index \<inter> set test_index = {}
     \<and> set train_index \<union> set test_index = {0..<length cv_ids}"
    by (auto simp: predefined_split_def)
next
  fix i assume i: "i < length cv_ids"
  have "length (filter (\<lambda>(train_index, test_index). i \<in> set test_index) (predefined_split cv_ids))
      = length (filter (\<lambda>f. cv_ids ! i = f) (unique_folds cv_ids))"
    using i by (simp add: predefined_split_def filter_map comp_def)
  also have "\<dots> = (if cv_ids ! i \<in> set (unique_folds cv_ids) then 1 else 0)"
    by (rule count_fold) (rule distinct_unique_folds)
  also have "\<dots> = (if cv_ids ! i = - 1 then 0 else 1)"
    using i by (simp add: set_unique_folds)
  finally show "length (filter (\<lambda>(train_index, test_index). i \<in> set test_index) (predefined_split cv_ids))
      = (if cv_ids ! i = - 1 then 0 else 1)" .
next
  show "(\<Union>(train_index, test_index) \<in> set (predefined_split cv_ids). set test_index)
        = {i. i < length cv_ids \<and> cv_ids ! i \<noteq> - 1}"
    by (auto simp: predefined_split_def set_unique_folds)
qed

text \<open>Instance: keys \<open>[2, 0, -1, 0]\<close> give the folds 0 and 2.\<close>

theorem predefined_split_partition_witness:
  "predefined_split [2, 0, - 1, 0] = [([0, 2], [1, 3]), ([1, 2, 3], [0])]
   \<and> set [0, 2::nat] \<inter> set [1, 3] = {}
   \<and> set [0, 2::nat] \<union> set [1, 3] = {0..<length [2, 0, - 1, 0 :: int]}
   \<and> length (filter (\<lambda>(train_index, test_index). 3 \<in> set test_index) (predefined_split [2, 0, - 1, 0])) = 1
   \<and> length (filter (\<lambda>(train_index, test_index). 2 \<in> set test_index) (predefined_split [2, 0, - 1, 0])) = 0"
proof -
  have a: "predefined_split [2, 0, - 1, 0] = [([0, 2], [1, 3]), ([1, 2, 3], [0])]" by code_simp
  have b: "([0, 2], [1, 3]) \<in> set (predefined_split [2, 0, - 1, 0])" unfolding a by simp
  note th = predefined_split_partition [of "[2, 0, - 1, 0]"]
  have c: "set [0, 2::nat] \<inter> set [1, 3] = {}
     \<and> set [0, 2::nat] \<union> set [1, 3] = {0..<length [2, 0, - 1, 0 :: int]}"
    using bspec [OF th [THEN conjunct1] b] by (simp only: prod.case)
  note d = th [THEN conjunct2, THEN conjunct1, rule_format]
  have e: "length (filter (\<lambda>(train_index, test_index). 3 \<in> set test_index) (predefined_split [2, 0, - 1, 0])) = 1"
    using d [of 3] by simp
  have f: "length (filter (\<lambda>(train_index, test_index). 2 \<in> set test_index) (predefined_split [2, 0, - 1, 0])) = 0"
    using d [of 2] by simp
  show ?thesis
    by (intro conjI) (rule a, rule c [THEN conjunct1], rule c [THEN conjunct2], rule e, rule f)
qed

lemma decode_fold_appends:
  "decode_fold fit score X y model split (models, scores, heap) = Inr (models', scores', heap') \<Longrightarrow>
     models' = models @ [model] \<and> length scores' = Suc (length scores)"
  by (cases split) (auto simp: decode_fold_def Let_def split: sum.splits option.splits)

lemma decode_loop_appends:
  "for_loop (decode_fold fit score X y model) splits (models, scores, heap) = Inr (models', scores', heap') \<Longrightarrow>
     models' = models @ replicate (length splits) model \<and> length scores' = length scores + length splits"
proof (induction splits arbitrary: models scores heap)
  case Nil
  then show ?case by simp
next
  case (Cons sp splits)
  from Cons.prems obtain m1 s1 h1 where
    step: "decode_fold fit score X y model sp (models, scores, heap) = Inr (m1, s1, h1)"
    and rest: "for_loop (decode_fold fit score X y model) splits (m1, s1, h1) = Inr (models', scores', heap')"
    by (auto split: sum.splits)
  from decode_fold_appends [OF step] Cons.IH [OF rest] show ?case
    by (simp add: replicate_app_Cons_same)
qed

lemma decode_returns_one_object:
  assumes "decode fit score X y cv_ids model heap = Inr (models, scores, heap')"
  shows "models = replicate (length (unique_folds cv_ids)) model"
    and "length scores = length (unique_folds cv_ids)"
  using decode_loop_appends [OF assms [unfolded decode_def]]
  by (simp_all add: predefined_split_def)

text \<open>
  Claim C3 (fold-fresh classifiers). The claim says that the \<open>i\<close>-th returned
  classifier belongs to fold \<open>i\<close> and is fitted on that fold's training rows only.
  The code appends the one object \<^verbatim>\<open>model\<close> in every iteration and refits it in
  place. With two rows, fold keys \<open>[0, 1]\<close> and a classifier whose fitted state is
  its training set, both entries of the returned list are the reference 0, and
  the object it names holds the fit of the last fold (training row 0). Fold 0
  tests row 0 and trains on row 1, so the first returned classifier is not the
  one fitted for fold 0; it has been fitted on fold 0's test row.
\<close>

theorem decode_models_alias:
  "decode (\<lambda>X_train y_train. Inr (X_train, y_train)) (\<lambda>m X_test y_test. Inr 1)
      [[10], [11 :: rat]] [1, 2 :: int] [0, 1] 0 Map.empty
     = Inr ([0, 0], [1, 1], [0 \<mapsto> ([[10]], [1])])
   \<and> snd (predefined_split [0, 1] ! 0) = [0]
   \<and> fst (predefined_split [0, 1] ! 0) = [1]"
  by (simp add: decode_def predefined_split_def unique_folds_def decode_fold_def take_rows_def)

section \<open>Properties of \<^verbatim>\<open>normalize\<close>\<close>

lemma filter_sorted_step:
  fixes f :: "'a \<Rightarrow> int"
  assumes "sorted (map f zs)"
  shows "filter (\<lambda>p. f p < k + 1) zs = filter (\<lambda>p. f p < k) zs @ filter (\<lambda>p. f p = k) zs"
  using assms
proof (induction zs)
  case Nil
  show ?case by simp
next
  case (Cons z zs)
  then have ih: "filter (\<lambda>p. f p < k + 1) zs = filter (\<lambda>p. f p < k) zs @ filter (\<lambda>p. f p = k) zs"
    and le: "\<And>z'. z' \<in> set zs \<Longrightarrow> f z \<le> f z'"
    by auto
  show ?case
  proof (cases "f z < k")
    case True
    then show ?thesis using ih by simp
  next
    case False
    then have "filter (\<lambda>p. f p < k) zs = []"
      using le by (fastforce simp: filter_empty_conv)
    then show ?thesis using False ih by auto
  qed
qed

lemma concat_runs_sorted:
  fixes f :: "'a \<Rightarrow> int"
  assumes "sorted (map f zs)" and "\<And>z. z \<in> set zs \<Longrightarrow> 0 \<le> f z"
  shows "concat (map (\<lambda>r. filter (\<lambda>p. f p = int r) zs) [0..<k]) = filter (\<lambda>p. f p < int k) zs"
proof (induction k)
  case 0
  have "filter (\<lambda>p. f p < 0) zs = []"
    using assms(2) by (fastforce simp: filter_empty_conv)
  then show ?case by simp
next
  case (Suc k)
  have "filter (\<lambda>p. f p < int (Suc k)) zs = filter (\<lambda>p. f p < int k + 1) zs"
    by (simp add: add.commute)
  then show ?case
    using Suc filter_sorted_step [OF assms(1), of "int k"] by simp
qed

lemma concat_runs_all:
  fixes f :: "'a \<Rightarrow> int"
  assumes "sorted (map f zs)" and "\<And>z. z \<in> set zs \<Longrightarrow> 0 \<le> f z \<and> f z < n"
  shows "concat (map (\<lambda>r. filter (\<lambda>p. f p = r) zs) (py_range n)) = zs"
proof -
  have "concat (map (\<lambda>r. filter (\<lambda>p. f p = r) zs) (py_range n)) =
        concat (map (\<lambda>r. filter (\<lambda>p. f p = int r) zs) [0..<nat n])"
    by (simp add: py_range_def comp_def)
  also have "\<dots> = filter (\<lambda>p. f p < int (nat n)) zs"
    using assms by (intro concat_runs_sorted) auto
  also have "\<dots> = zs"
    using assms(2) by (fastforce simp: filter_id_conv)
  finally show ?thesis .
qed

lemma select_rows_run:
  "length run_ids = length X \<Longrightarrow>
     select_rows X (equals_run (NdArray run_ids) r) = Inr (Array2 (rows_of_run X run_ids r))"
  by (simp add: mask_rows_def rows_of_run_def zip_map2 filter_map comp_def case_prod_unfold)

lemma fit_transform_run:
  assumes "rows_of_run X run_ids r \<noteq> []" and "\<And>row. row \<in> set X \<Longrightarrow> row \<noteq> []"
  shows "fit_transform_2d (rows_of_run X run_ids r) =
     Inr (map (run_transform X run_ids r) (rows_of_run X run_ids r))"
proof -
  obtain row rest where eq: "rows_of_run X run_ids r = row # rest"
    using assms(1) by (cases "rows_of_run X run_ids r") auto
  have "set (rows_of_run X run_ids r) \<subseteq> set X"
    by (auto simp: rows_of_run_def dest: set_zip_leftD)
  then have "row \<in> set X" using eq by auto
  then have "row \<noteq> []" by (rule assms(2))
  then show ?thesis
    unfolding fit_transform_2d_def run_transform_def Let_def eq [symmetric]
    using eq by (simp split: list.splits)
qed

lemma collect_loop_body:
  assumes "\<And>r data. r \<in> set rs \<Longrightarrow> body r data = Inr (data @ [G r])"
  shows "for_loop body rs data = Inr (data @ map G rs)"
  using assms by (induction rs arbitrary: data) auto

lemma foldr_max_width_if:
  "(\<And>row. row \<in> set xs \<Longrightarrow> length row = w) \<Longrightarrow>
     foldr (\<lambda>row. max (length row)) xs 0 = (if xs = [] then 0 else w)"
  by (induction xs) auto

lemma foldr_max_width:
  "xs \<noteq> [] \<Longrightarrow> (\<And>row. row \<in> set xs \<Longrightarrow> length row = w) \<Longrightarrow>
     foldr (\<lambda>row. max (length row)) xs 0 = w"
  using foldr_max_width_if [of xs w] by simp

lemma rows_of_run_subset: "set (rows_of_run X run_ids r) \<subseteq> set X"
  by (auto simp: rows_of_run_def dest: set_zip_leftD)

lemma rows_of_run_nonempty:
  assumes "length run_ids = length X" and "r \<in> set run_ids"
  shows "rows_of_run X run_ids r \<noteq> []"
proof -
  from assms(2) obtain j where j: "j < length run_ids" "run_ids ! j = r"
    by (auto simp: in_set_conv_nth)
  then have "(X ! j, r) \<in> set (zip X run_ids)"
    using assms(1) by (auto simp: set_zip)
  then show ?thesis
    by (auto simp: rows_of_run_def filter_empty_conv)
qed

lemma length_run_transform:
  assumes "rows_of_run X run_ids r \<noteq> []" and "\<And>row. row \<in> set X \<Longrightarrow> length row = w"
    and "length row = w"
  shows "length (run_transform X run_ids r row) = w"
proof -
  have "length (transpose (rows_of_run X run_ids r)) = w"
    unfolding length_transpose
    using assms(1,2) rows_of_run_subset [of X run_ids r] by (intro foldr_max_width) auto
  then show ?thesis using assms(3) by (simp add: run_transform_def transform_row_def)
qed

lemma width_normalized_run:
  assumes "rows_of_run X run_ids r \<noteq> []" and "\<And>row. row \<in> set X \<Longrightarrow> length row = w"
  shows "width (map (run_transform X run_ids r) (rows_of_run X run_ids r)) = w"
proof -
  obtain row rest where eq: "rows_of_run X run_ids r = row # rest"
    using assms(1) by (cases "rows_of_run X run_ids r") auto
  then have "row \<in> set X" using rows_of_run_subset [of X run_ids r] by auto
  then have "length row = w" by (rule assms(2))
  then show ?thesis
    using length_run_transform [OF assms(1) assms(2), of row] eq by (simp add: width_def)
qed

lemma normalized_runs_concat:
  assumes "sorted run_ids" and "length run_ids = length X"
    and "\<And>r. r \<in> set run_ids \<Longrightarrow> 0 \<le> r \<and> r < n"
  shows "concat (map (\<lambda>r. map (run_transform X run_ids r) (rows_of_run X run_ids r)) (py_range n))
       = map (zscore_in_run X run_ids) [0..<length X]"
proof -
  let ?zs = "zip X run_ids"
  let ?h = "\<lambda>p. run_transform X run_ids (snd p) (fst p)"
  have ids: "map snd ?zs = run_ids" using assms(2) by simp
  have "map (run_transform X run_ids r) (rows_of_run X run_ids r)
        = map ?h (filter (\<lambda>p. snd p = r) ?zs)" for r
    by (simp add: rows_of_run_def case_prod_unfold comp_def cong: map_cong)
  then have "concat (map (\<lambda>r. map (run_transform X run_ids r) (rows_of_run X run_ids r)) (py_range n))
        = concat (map (map ?h) (map (\<lambda>r. filter (\<lambda>p. snd p = r) ?zs) (py_range n)))"
    by (simp add: comp_def)
  also have "\<dots> = map ?h (concat (map (\<lambda>r. filter (\<lambda>p. snd p = r) ?zs) (py_range n)))"
    by (simp only: map_concat)
  also have "concat (map (\<lambda>r. filter (\<lambda>p. snd p = r) ?zs) (py_range n)) = ?zs"
  proof (rule concat_runs_all)
    show "sorted (map snd ?zs)" using assms(1) ids by simp
    fix z assume z: "z \<in> set ?zs"
    obtain a b where ab: "z = (a, b)" by (cases z)
    have "snd z \<in> set run_ids" using z unfolding ab by (auto dest: set_zip_rightD)
    then show "0 \<le> snd z \<and> snd z < n" by (rule assms(3))
  qed
  also have "map ?h ?zs = map (zscore_in_run X run_ids) [0..<length X]"
    using assms(2) by (intro nth_equalityI) (simp_all add: zscore_in_run_def)
  finally show ?thesis .
qed

text \<open>
  Claim C5 (row order of the normalised matrix), as stated, does not hold: the
  result is the runs stacked in the order \<open>0, 1, \<dots>\<close>. With run identifiers
  \<open>[1, 0, 1, 0]\<close> row 1 of the result is the z-score of input row 3, not of input
  row 1.
\<close>

theorem normalize_groups_rows_by_run:
  "normalize_py 2 [[0], [1], [2], [3]] (NdArray [1, 0, 1, 0]) = Inr [[- 1], [1], [- 1], [1]]
   \<and> map (zscore_in_run [[0], [1], [2], [3]] [1, 0, 1, 0]) [0, 1, 2, 3] = [[- 1], [- 1], [1], [1]]
   \<and> [[- 1], [1], [- 1], [1 :: real]] ! 1 \<noteq> zscore_in_run [[0], [1], [2], [3]] [1, 0, 1, 0] 1"
proof -
  have a: "normalize_py 2 [[0], [1], [2], [3]] (NdArray [1, 0, 1, 0]) = Inr [[- 1], [1], [- 1], [1]]"
    by (simp add: normalize_py_def py_range_def upt_rec normalize_run_def mask_rows_def
        fit_transform_2d_def np_vstack_def width_def mean_def std_def handle_zeros_in_scale_def
        transform_row_def)
  have b: "map (zscore_in_run [[0], [1], [2], [3]] [1, 0, 1, 0]) [0, 1, 2, 3] = [[- 1], [- 1], [1], [1]]"
    by (simp add: zscore_in_run_def run_transform_def rows_of_run_def mean_def std_def
        handle_zeros_in_scale_def transform_row_def)
  from b have c: "zscore_in_run [[0], [1], [2], [3]] [1, 0, 1, 0] 1 = [- 1]" by simp
  show ?thesis using a b unfolding c by simp
qed

text \<open>
  Claim C5, amended. Let the run identifiers be a NumPy array with one entry per
  row of the matrix, let \<open>vdc_n_runs \<ge> 1\<close>, let every run \<open>0, \<dots>, vdc_n_runs - 1\<close>
  have at least one row, and let the matrix have \<open>w \<ge> 1\<close> columns. Then
  \<^verbatim>\<open>normalize\<close> returns the runs stacked in the order \<open>0, 1, \<dots>, vdc_n_runs - 1\<close>:
  for each run in that order its rows, in their original relative order, each
  z-scored with the column means and population standard deviations of the rows
  of that run only (a zero standard deviation counting as 1). If moreover the
  run identifiers are in ascending order and all lie in \<open>0, \<dots>, vdc_n_runs - 1\<close>,
  the result has as many rows as the input and its row \<open>j\<close> is input row \<open>j\<close>
  z-scored with the statistics of the rows that share its run identifier.
\<close>

theorem normalize_stacks_runs:
  assumes len: "length run_ids = length X"
    and pos: "0 < vdc_n_runs"
    and runs: "\<forall>r. 0 \<le> r \<and> r < vdc_n_runs \<longrightarrow> r \<in> set run_ids"
    and rect: "\<forall>row \<in> set X. length row = w" and w: "0 < w"
  shows "normalize_py vdc_n_runs X (NdArray run_ids) =
        Inr (concat (map (\<lambda>r. map (run_transform X run_ids r) (rows_of_run X run_ids r))
                      (py_range vdc_n_runs)))
     \<and> (sorted run_ids \<and> (\<forall>r \<in> set run_ids. 0 \<le> r \<and> r < vdc_n_runs) \<longrightarrow>
          normalize_py vdc_n_runs X (NdArray run_ids) =
            Inr (map (zscore_in_run X run_ids) [0..<length X]))"
proof -
  let ?Z = "\<lambda>r. map (run_transform X run_ids r) (rows_of_run X run_ids r)"
  have ne: "rows_of_run X run_ids r \<noteq> []" if "r \<in> set (py_range vdc_n_runs)" for r
  proof -
    have "r \<in> set run_ids" using that runs by (auto simp: py_range_def)
    then show ?thesis by (rule rows_of_run_nonempty [OF len])
  qed
  have rows_ne: "row \<noteq> []" if "row \<in> set X" for row
    using that rect w by auto
  have body: "normalize_run X (NdArray run_ids) r data = Inr (data @ [?Z r])"
    if "r \<in> set (py_range vdc_n_runs)" for r data
    using fit_transform_run [OF ne [OF that] rows_ne]
    unfolding normalize_run_def select_rows_run [OF len] by simp
  have loop: "for_loop (normalize_run X (NdArray run_ids)) (py_range vdc_n_runs) []
      = Inr (map ?Z (py_range vdc_n_runs))"
    using collect_loop_body [of "py_range vdc_n_runs" "normalize_run X (NdArray run_ids)" ?Z "[]"] body
    by simp
  have nonempty: "py_range vdc_n_runs \<noteq> []"
    using pos by (simp add: py_range_def)
  have widths: "width (?Z r) = w" if "r \<in> set (py_range vdc_n_runs)" for r
    using width_normalized_run [OF ne [OF that]] rect by simp
  have stack: "np_vstack (map ?Z (py_range vdc_n_runs)) = Inr (concat (map ?Z (py_range vdc_n_runs)))"
  proof -
    obtain r0 rs where eq: "py_range vdc_n_runs = r0 # rs"
      using nonempty by (cases "py_range vdc_n_runs") auto
    have "\<not> list_ex (\<lambda>b. width b \<noteq> width (?Z r0)) (map ?Z (py_range vdc_n_runs))"
      using widths eq by (auto simp: list_ex_iff)
    then show ?thesis
      unfolding np_vstack_def eq by (simp add: eq)
  qed
  have stacked: "normalize_py vdc_n_runs X (NdArray run_ids) = Inr (concat (map ?Z (py_range vdc_n_runs)))"
    by (simp add: normalize_py_def loop stack)
  have ordered: "normalize_py vdc_n_runs X (NdArray run_ids) =
      Inr (map (zscore_in_run X run_ids) [0..<length X])"
    if "sorted run_ids" and "\<forall>r \<in> set run_ids. 0 \<le> r \<and> r < vdc_n_runs"
  proof -
    have "concat (map ?Z (py_range vdc_n_runs)) = map (zscore_in_run X run_ids) [0..<length X]"
      using that(2) by (intro normalized_runs_concat [OF that(1) len]) auto
    then show ?thesis using stacked by simp
  qed
  show ?thesis
  proof (intro conjI impI)
    show "normalize_py vdc_n_runs X (NdArray run_ids) = Inr (concat (map ?Z (py_range vdc_n_runs)))"
      by (rule stacked)
  next
    assume "sorted run_ids \<and> (\<forall>r \<in> set run_ids. 0 \<le> r \<and> r < vdc_n_runs)"
    then show "normalize_py vdc_n_runs X (NdArray run_ids) =
        Inr (map (zscore_in_run X run_ids) [0..<length X])"
      using ordered by simp
  qed
qed

text \<open>
  Instances: with the identifiers \<open>[1, 0, 1, 0]\<close> the rows of run 0 come first;
  with the ascending identifiers \<open>[0, 0, 1, 1]\<close> the rows keep their places.
\<close>

theorem normalize_stacks_runs_witness:
  "normalize_py 2 [[0], [1], [2], [3]] (NdArray [1, 0, 1, 0]) =
      Inr (map (run_transform [[0], [1], [2], [3]] [1, 0, 1, 0] 0) [[1], [3]]
         @ map (run_transform [[0], [1], [2], [3]] [1, 0, 1, 0] 1) [[0], [2]])
   \<and> sorted [0, 0, 1, 1 :: int]
   \<and> normalize_py 2 [[0], [2], [1], [3]] (NdArray [0, 0, 1, 1]) = Inr [[- 1], [1], [- 1], [1]]"
proof -
  have three: "r = 0 \<or> r = 1" if "0 \<le> r \<and> r < 2" for r :: int
    using that by linarith
  have a1: "length [1, 0, 1, 0 :: int] = length [[0], [1], [2], [3 :: real]]" by simp
  have a2: "\<forall>r. 0 \<le> r \<and> r < 2 \<longrightarrow> r \<in> set [1, 0, 1, 0 :: int]"
    using three by fastforce
  have a3: "\<forall>row \<in> set [[0], [1], [2], [3 :: real]]. length row = 1" by simp
  have rows: "rows_of_run [[0], [1], [2], [3]] [1, 0, 1, 0] 0 = [[1], [3]]"
    "rows_of_run [[0], [1], [2], [3]] [1, 0, 1, 0] 1 = [[0], [2]]"
    by (simp_all add: rows_of_run_def)
  have a: "normalize_py 2 [[0], [1], [2], [3]] (NdArray [1, 0, 1, 0]) =
      Inr (map (run_transform [[0], [1], [2], [3]] [1, 0, 1, 0] 0) [[1], [3]]
         @ map (run_transform [[0], [1], [2], [3]] [1, 0, 1, 0] 1) [[0], [2]])"
    using normalize_stacks_runs [OF a1 _ a2 a3, THEN conjunct1]
    by (simp add: py_range_def upt_rec rows)
  have h1: "length [0, 0, 1, 1 :: int] = length [[0], [2], [1], [3 :: real]]" by simp
  have h2: "sorted [0, 0, 1, 1 :: int]" by simp
  have h3: "\<forall>r. 0 \<le> r \<and> r < 2 \<longrightarrow> r \<in> set [0, 0, 1, 1 :: int]"
    using three by fastforce
  have h4: "\<forall>r \<in> set [0, 0, 1, 1 :: int]. 0 \<le> r \<and> r < 2" by simp
  have h5: "\<forall>row \<in> set [[0], [2], [1], [3 :: real]]. length row = 1" by simp
  have z: "map (zscore_in_run [[0], [2], [1], [3]] [0, 0, 1, 1]) [0..<length [[0], [2], [1], [3 :: real]]]
      = [[- 1], [1], [- 1], [1]]"
    by (simp add: upt_rec zscore_in_run_def run_transform_def rows_of_run_def mean_def std_def
        handle_zeros_in_scale_def transform_row_def)
  have "sorted [0, 0, 1, 1 :: int] \<and> (\<forall>r \<in> set [0, 0, 1, 1 :: int]. 0 \<le> r \<and> r < 2)"
    using h2 h4 by (rule conjI)
  then have b: "normalize_py 2 [[0], [2], [1], [3]] (NdArray [0, 0, 1, 1]) = Inr [[- 1], [1], [- 1], [1]]"
    using normalize_stacks_runs [OF h1 _ h3 h5, THEN conjunct2] unfolding z by simp
  show ?thesis by (intro conjI) (rule a, rule h2, rule b)
qed

text \<open>
  With the identifiers given as a Python list every selection is the empty
  three-dimensional stack, which \<^verbatim>\<open>fit_transform\<close> refuses, and without a run
  to loop over \<^verbatim>\<open>np.vstack\<close> has nothing to stack: the call raises ValueError.
\<close>

lemma normalize_py_list_raises: "normalize_py vdc_n_runs X (PyList run_ids) = Inl ValueError"
proof (cases "0 < vdc_n_runs")
  case True
  then have "py_range vdc_n_runs = 0 # map int [1..<nat vdc_n_runs]"
    by (simp add: py_range_def upt_rec)
  then show ?thesis by (simp add: normalize_py_def normalize_run_def)
next
  case False
  then have "py_range vdc_n_runs = []" by (simp add: py_range_def)
  then show ?thesis by (simp add: normalize_py_def np_vstack_def)
qed

end
